theory Spec2Isabelle
  imports Complex_Main "HOL-Library.AList" "HOL-Library.Sublist"
begin

section \<open>JavaScript values and event payloads\<close>

text \<open>
  The payloads that travel through the socket are JavaScript object literals. A value is
  one of the primitive kinds or an object, kept as an association list in insertion
  order. Numbers are reals: the code only compares, subtracts and takes minima and maxima
  of them, which is exact on doubles (NaN is outside the model).
\<close>

datatype jsval =
    JUndefined
  | JNull
  | JBool bool
  | JNum real
  | JStr string
  | JObject "(string \<times> jsval) list"

text \<open>Truthiness, as the operator \<^verbatim>\<open>||\<close> reads it.\<close>

fun truthy :: "jsval \<Rightarrow> bool" where
  "truthy JUndefined = False"
| "truthy JNull = False"
| "truthy (JBool b) = b"
| "truthy (JNum r) = (r \<noteq> 0)"
| "truthy (JStr s) = (s \<noteq> [])"
| "truthy (JObject kvs) = True"

definition js_or :: "jsval \<Rightarrow> jsval \<Rightarrow> jsval" where
  "js_or a b = (if truthy a then a else b)"

text \<open>Reading a property of an object: \<^verbatim>\<open>undefined\<close> where the object has no such key.\<close>

fun field :: "jsval \<Rightarrow> string \<Rightarrow> jsval" where
  "field (JObject kvs) k = (case map_of kvs k of Some v \<Rightarrow> v | None \<Rightarrow> JUndefined)"
| "field v k = JUndefined"

section \<open>SocketManager\<close>

text \<open>
  \<^verbatim>\<open>class SocketManager\<close>: the fields \<^verbatim>\<open>lastRoom\<close> and \<^verbatim>\<open>userName\<close>, and, for the
  underlying \<^verbatim>\<open>this.socket\<close>, the list of the calls \<^verbatim>\<open>this.socket.emit(event, data)\<close>
  made so far, oldest first.
\<close>

record socket_manager =
  lastRoom :: "string option"
  userName :: jsval
  sent :: "(string \<times> jsval) list"

definition SocketManager_new :: socket_manager where
  "SocketManager_new = \<lparr>lastRoom = None, userName = JStr [], sent = []\<rparr>"

definition setUserName :: "jsval \<Rightarrow> socket_manager \<Rightarrow> socket_manager" where
  "setUserName name sm = sm\<lparr>userName := name\<rparr>"

definition joinRoom :: "string \<Rightarrow> socket_manager \<Rightarrow> socket_manager" where
  "joinRoom room sm =
     sm\<lparr>lastRoom := Some room,
        sent := sent sm @ [(''join'', JObject [(''room'', JStr room), (''userName'', userName sm)])]\<rparr>"

text \<open>
  \<^verbatim>\<open>emit(event, data)\<close>: the object literal \<^verbatim>\<open>{...data, userName: this.userName || 'Anonymous'}\<close>
  keeps the entries of \<^verbatim>\<open>data\<close> in their order; the key \<^verbatim>\<open>userName\<close> is overwritten where
  \<^verbatim>\<open>data\<close> has it and appended otherwise.
\<close>

definition emit :: "string \<Rightarrow> (string \<times> jsval) list \<Rightarrow> socket_manager \<Rightarrow> socket_manager" where
  "emit event data sm =
     (let dataWithUser = AList.update ''userName'' (js_or (userName sm) (JStr ''Anonymous'')) data
      in sm\<lparr>sent := sent sm @ [(event, JObject dataWithUser)]\<rparr>)"

section \<open>Canvas objects\<close>

text \<open>
  Drawing objects are JavaScript objects with an identity: the same object sits on the
  canvas and in a history stack, and \<^verbatim>\<open>rect.set\<close> changes it in place. They live in a
  store, a list indexed by reference; creating an object appends to the store. The
  shapes of fabric are outside the repository, so an object is kept by the properties the
  code sets: a free-drawn or revived object by its serialised form, a rectangle by left,
  top, width, height, stroke and stroke width, a circle by left, top, radius, stroke and
  stroke width, a cursor marker by its id, label, left and top.
\<close>

datatype fobject =
    Drawn jsval
  | Rect real real real real string real
  | Circle real real real string real
  | CursorGroup string string real real

fun toJSON :: "fobject \<Rightarrow> jsval" where
  "toJSON (Drawn j) = j"
| "toJSON (Rect l t w h s sw) =
     JObject [(''type'', JStr ''rect''), (''left'', JNum l), (''top'', JNum t),
              (''width'', JNum w), (''height'', JNum h), (''fill'', JStr ''transparent''),
              (''stroke'', JStr s), (''strokeWidth'', JNum sw)]"
| "toJSON (Circle l t r s sw) =
     JObject [(''type'', JStr ''circle''), (''left'', JNum l), (''top'', JNum t),
              (''radius'', JNum r), (''fill'', JStr ''transparent''),
              (''stroke'', JStr s), (''strokeWidth'', JNum sw)]"
| "toJSON (CursorGroup i lbl l t) =
     JObject [(''type'', JStr ''group''), (''id'', JStr i), (''left'', JNum l), (''top'', JNum t)]"

text \<open>
  The canvas of fabric: its object list (\<^verbatim>\<open>add\<close> appends, \<^verbatim>\<open>remove\<close> takes the first
  occurrence out, \<^verbatim>\<open>clear\<close> empties it), its size, the brush and the viewport.
\<close>

record fabric_canvas =
  objects :: "nat list"
  width :: real
  height :: real
  isDrawingMode :: bool
  brush_color :: string
  brush_width :: real
  vpt_zoom :: real
  vpt_pan :: "real \<times> real"

definition canvas_add :: "nat \<Rightarrow> fabric_canvas \<Rightarrow> fabric_canvas" where
  "canvas_add r c = c\<lparr>objects := objects c @ [r]\<rparr>"

definition canvas_remove :: "nat \<Rightarrow> fabric_canvas \<Rightarrow> fabric_canvas" where
  "canvas_remove r c = c\<lparr>objects := remove1 r (objects c)\<rparr>"

definition canvas_clear :: "fabric_canvas \<Rightarrow> fabric_canvas" where
  "canvas_clear c = c\<lparr>objects := []\<rparr>"

section \<open>Whiteboard\<close>

record viewport =
  zoom :: real
  pan :: "real \<times> real"

text \<open>
  \<^verbatim>\<open>class Whiteboard\<close>. \<^verbatim>\<open>heap\<close> is the object store; \<^verbatim>\<open>history\<close> and \<^verbatim>\<open>redoStack\<close> are
  JavaScript arrays of object references (\<^verbatim>\<open>push\<close> appends, \<^verbatim>\<open>pop\<close> takes the last);
  \<^verbatim>\<open>lastEmit\<close> is the variable the \<^verbatim>\<open>mouse:move\<close> handler closes over.
\<close>

record whiteboard =
  heap :: "fobject list"
  canvas :: fabric_canvas
  socket :: socket_manager
  roomId :: string
  history :: "nat list"
  redoStack :: "nat list"
  currentMode :: string
  isDrawing :: bool
  viewportState :: viewport
  lastEmit :: int

definition socket_emit :: "string \<Rightarrow> (string \<times> jsval) list \<Rightarrow> whiteboard \<Rightarrow> whiteboard" where
  "socket_emit event data wb = wb\<lparr>socket := emit event data (socket wb)\<rparr>"

text \<open>
  The constructor, for a canvas of the given size: empty stacks, draw mode, the brush of
  \<^verbatim>\<open>setupTools\<close>, the identity viewport, and the room joined through the socket manager.
\<close>

definition Whiteboard_new :: "socket_manager \<Rightarrow> string \<Rightarrow> real \<Rightarrow> real \<Rightarrow> whiteboard" where
  "Whiteboard_new sock room w h =
     \<lparr>heap = [],
      canvas = \<lparr>objects = [], width = w, height = h, isDrawingMode = True,
                brush_color = ''#000000'', brush_width = 2, vpt_zoom = 1, vpt_pan = (0, 0)\<rparr>,
      socket = joinRoom room sock,
      roomId = room,
      history = [],
      redoStack = [],
      currentMode = ''draw'',
      isDrawing = False,
      viewportState = \<lparr>zoom = 1, pan = (0, 0)\<rparr>,
      lastEmit = 0\<rparr>"

definition setColor :: "string \<Rightarrow> whiteboard \<Rightarrow> whiteboard" where
  "setColor color wb = wb\<lparr>canvas := (canvas wb)\<lparr>brush_color := color\<rparr>\<rparr>"

definition setBrushSize :: "real \<Rightarrow> whiteboard \<Rightarrow> whiteboard" where
  "setBrushSize sz wb = wb\<lparr>canvas := (canvas wb)\<lparr>brush_width := sz\<rparr>\<rparr>"

text \<open>
  \<^verbatim>\<open>resizeCanvas\<close>, from the container's \<^verbatim>\<open>clientWidth\<close> and the window's \<^verbatim>\<open>innerHeight\<close>:
  the canvas gets the container's width less 40, with no lower bound, and eight tenths of
  the window's height.
\<close>

definition resizeCanvas :: "real \<Rightarrow> real \<Rightarrow> whiteboard \<Rightarrow> whiteboard" where
  "resizeCanvas clientWidth innerHeight wb =
     (let containerWidth = clientWidth;
          containerHeight = innerHeight * 0.8;
          newWidth = containerWidth - 40;
          newHeight = containerHeight
      in wb\<lparr>canvas := (canvas wb)\<lparr>width := newWidth, height := newHeight\<rparr>\<rparr>)"

subsection \<open>Cursor tracking\<close>

definition EMIT_INTERVAL :: int where
  "EMIT_INTERVAL = 50"

text \<open>
  The \<^verbatim>\<open>mouse:move\<close> handler of \<^verbatim>\<open>setupEventListeners\<close>. \<^verbatim>\<open>now\<close> is what \<^verbatim>\<open>Date.now()\<close>
  returned (milliseconds, an integer) and \<^verbatim>\<open>pointer\<close> what \<^verbatim>\<open>canvas.getPointer\<close> returned.
\<close>

definition on_mouse_move :: "int \<Rightarrow> real \<times> real \<Rightarrow> whiteboard \<Rightarrow> whiteboard" where
  "on_mouse_move now pointer wb =
     (if now - lastEmit wb > EMIT_INTERVAL then
        let x = min (max (fst pointer) 0) (width (canvas wb));
            y = min (max (snd pointer) 0) (height (canvas wb))
        in (socket_emit ''cursor_move''
              [(''room'', JStr (roomId wb)), (''x'', JNum x), (''y'', JNum y)] wb)
           \<lparr>lastEmit := now\<rparr>
      else wb)"

text \<open>
  \<^verbatim>\<open>updateCursor(data)\<close>: the marker of that user, if one is on the canvas, is removed, and
  a new group (triangle, label background and label, kept here as one object) is added on
  top.
\<close>

definition is_cursor_of :: "fobject list \<Rightarrow> string \<Rightarrow> nat \<Rightarrow> bool" where
  "is_cursor_of h cid r =
     (r < length h \<and> (case h ! r of CursorGroup i lbl l t \<Rightarrow> i = cid | _ \<Rightarrow> False))"

definition updateCursor :: "string \<Rightarrow> real \<Rightarrow> real \<Rightarrow> whiteboard \<Rightarrow> whiteboard" where
  "updateCursor name x y wb =
     (let cid = ''cursor_'' @ name;
          c1 = (case find (is_cursor_of (heap wb) cid) (objects (canvas wb)) of
                  Some existingCursor \<Rightarrow> canvas_remove existingCursor (canvas wb)
                | None \<Rightarrow> canvas wb);
          label = (if name \<noteq> [] then name else ''Anonymous'');
          cursorGroup = length (heap wb)
      in wb\<lparr>heap := heap wb @ [CursorGroup cid label x y],
            canvas := canvas_add cursorGroup c1\<rparr>)"

text \<open>
  A stream of pointer samples, each the reading of the clock and the pointer position,
  handled in order; and the samples of the stream at which the handler sent an event.
\<close>

type_synonym sample = "int \<times> (real \<times> real)"

definition track :: "sample list \<Rightarrow> whiteboard \<Rightarrow> whiteboard" where
  "track samples wb = fold (\<lambda>s. on_mouse_move (fst s) (snd s)) samples wb"

fun emitted_at :: "sample list \<Rightarrow> whiteboard \<Rightarrow> sample list" where
  "emitted_at [] wb = []"
| "emitted_at (s # ss) wb =
     (let wb' = on_mouse_move (fst s) (snd s) wb
      in (if sent (socket wb') = sent (socket wb) then [] else [s]) @ emitted_at ss wb')"

text \<open>
  The event the handler sends for a sample: the room, the pointer position clamped as
  the handler clamps it, and the user name that \<^verbatim>\<open>emit\<close> adds.
\<close>

definition cursor_move_event :: "whiteboard \<Rightarrow> sample \<Rightarrow> string \<times> jsval" where
  "cursor_move_event wb s =
     (''cursor_move'',
      JObject [(''room'', JStr (roomId wb)),
               (''x'', JNum (min (max (fst (snd s)) 0) (width (canvas wb)))),
               (''y'', JNum (min (max (snd (snd s)) 0) (height (canvas wb)))),
               (''userName'', js_or (userName (socket wb)) (JStr ''Anonymous''))])"

subsection \<open>Handlers of remote events\<close>

text \<open>
  The events the relay delivers, with the fields the handlers read: \<^verbatim>\<open>cursor_update\<close>
  \<^verbatim>\<open>{room, userName, x, y}\<close>, \<^verbatim>\<open>viewport_update\<close> \<^verbatim>\<open>{room, viewport: {zoom, pan: {x, y}}}\<close>,
  \<^verbatim>\<open>draw_update\<close> \<^verbatim>\<open>{room, path}\<close>, \<^verbatim>\<open>undo_update\<close> and \<^verbatim>\<open>redo_update\<close> \<^verbatim>\<open>{room}\<close>. The
  handler of \<^verbatim>\<open>clear_board\<close> takes no parameter; whatever arrives with the event is kept
  as a value.

  The handler of \<^verbatim>\<open>draw_update\<close> hands \<^verbatim>\<open>[path]\<close> to \<^verbatim>\<open>fabric.util.enlivenObjects\<close>, which is
  not code of this repository. What fabric makes of the path comes with the event as its
  third component: \<open>Some objects\<close> is the list fabric passes to the callback, each revived
  object given by its serialised form (fabric passes no object for a path that is not an
  object with a \<^verbatim>\<open>type\<close>, such as a string or \<^verbatim>\<open>null\<close>, and at most one otherwise);
  \<open>None\<close> is a call that throws or never calls back. The theorems hold whatever fabric
  answers.
\<close>

datatype remote_event =
    cursor_update string string real real
  | viewport_update string viewport
  | draw_update string jsval "jsval list option"
  | undo_update string
  | redo_update string
  | clear_board jsval

definition on_cursor_update :: "string \<Rightarrow> string \<Rightarrow> real \<Rightarrow> real \<Rightarrow> whiteboard \<Rightarrow> whiteboard" where
  "on_cursor_update room name x y wb =
     (if room = roomId wb \<and> JStr name \<noteq> userName (socket wb)
      then updateCursor name x y wb else wb)"

definition on_viewport_update :: "string \<Rightarrow> viewport \<Rightarrow> whiteboard \<Rightarrow> whiteboard" where
  "on_viewport_update room v wb =
     (if room = roomId wb
      then wb\<lparr>viewportState := v,
              canvas := (canvas wb)\<lparr>vpt_zoom := zoom v, vpt_pan := pan v\<rparr>\<rparr>
      else wb)"

text \<open>
  The callback given to \<^verbatim>\<open>fabric.util.enlivenObjects\<close>, in the \<^verbatim>\<open>draw_update\<close> handler
  and in \<^verbatim>\<open>loadExistingDrawings\<close> alike: \<^verbatim>\<open>objects.forEach\<close> adds each revived object to
  the canvas and pushes it on \<^verbatim>\<open>history\<close>. \<open>add_revived\<close> is the body of the loop for one
  object, which enters the store with its serialised form.
\<close>

definition add_revived :: "jsval \<Rightarrow> whiteboard \<Rightarrow> whiteboard" where
  "add_revived j wb =
     (let obj = length (heap wb)
      in wb\<lparr>heap := heap wb @ [Drawn j],
            canvas := canvas_add obj (canvas wb),
            history := history wb @ [obj]\<rparr>)"

definition enlivened_callback :: "jsval list \<Rightarrow> whiteboard \<Rightarrow> whiteboard" where
  "enlivened_callback objs wb = fold add_revived objs wb"

text \<open>
  The \<^verbatim>\<open>draw_update\<close> handler: for the client's room, the callback runs on what fabric
  revived; an exception of fabric is caught by the handler's \<^verbatim>\<open>try\<close> and leaves the
  state as it was.
\<close>

definition on_draw_update :: "string \<Rightarrow> jsval \<Rightarrow> jsval list option \<Rightarrow> whiteboard \<Rightarrow> whiteboard" where
  "on_draw_update room path revived wb =
     (if room = roomId wb then
        (case revived of
           Some objs \<Rightarrow> enlivened_callback objs wb
         | None \<Rightarrow> wb)
      else wb)"

text \<open>
  \<^verbatim>\<open>loadExistingDrawings\<close>, from the fetched list on: each drawing comes with what fabric
  makes of it, as in \<^verbatim>\<open>draw_update\<close>. A drawing is revived only when it passes the guard
  \<^verbatim>\<open>path && typeof path === 'object'\<close>; the \<^verbatim>\<open>try\<close> encloses the whole loop, so an
  exception of fabric ends the loading with the drawings revived so far.
\<close>

fun typeof_object :: "jsval \<Rightarrow> bool" where
  "typeof_object JNull = True"
| "typeof_object (JObject kvs) = True"
| "typeof_object v = False"

fun loadExistingDrawings :: "(jsval \<times> jsval list option) list \<Rightarrow> whiteboard \<Rightarrow> whiteboard" where
  "loadExistingDrawings [] wb = wb"
| "loadExistingDrawings ((path, revived) # drawings) wb =
     (if truthy path \<and> typeof_object path then
        (case revived of
           Some objs \<Rightarrow> loadExistingDrawings drawings (enlivened_callback objs wb)
         | None \<Rightarrow> wb)
      else loadExistingDrawings drawings wb)"

definition on_undo_update :: "string \<Rightarrow> whiteboard \<Rightarrow> whiteboard" where
  "on_undo_update room wb =
     (if room = roomId wb \<and> length (history wb) > 0 then
        let removed = last (history wb)
        in wb\<lparr>history := butlast (history wb),
              redoStack := redoStack wb @ [removed],
              canvas := canvas_remove removed (canvas wb)\<rparr>
      else wb)"

definition on_redo_update :: "string \<Rightarrow> whiteboard \<Rightarrow> whiteboard" where
  "on_redo_update room wb =
     (if room = roomId wb \<and> length (redoStack wb) > 0 then
        let restored = last (redoStack wb)
        in wb\<lparr>redoStack := butlast (redoStack wb),
              history := history wb @ [restored],
              canvas := canvas_add restored (canvas wb)\<rparr>
      else wb)"

definition on_clear_board :: "jsval \<Rightarrow> whiteboard \<Rightarrow> whiteboard" where
  "on_clear_board arrived wb = wb\<lparr>canvas := canvas_clear (canvas wb)\<rparr>"

fun receive :: "remote_event \<Rightarrow> whiteboard \<Rightarrow> whiteboard" where
  "receive (cursor_update room name x y) wb = on_cursor_update room name x y wb"
| "receive (viewport_update room v) wb = on_viewport_update room v wb"
| "receive (draw_update room path revived) wb = on_draw_update room path revived wb"
| "receive (undo_update room) wb = on_undo_update room wb"
| "receive (redo_update room) wb = on_redo_update room wb"
| "receive (clear_board arrived) wb = on_clear_board arrived wb"

text \<open>The room id an event carries, where its payload has one.\<close>

fun event_room :: "remote_event \<Rightarrow> jsval" where
  "event_room (cursor_update room name x y) = JStr room"
| "event_room (viewport_update room v) = JStr room"
| "event_room (draw_update room path revived) = JStr room"
| "event_room (undo_update room) = JStr room"
| "event_room (redo_update room) = JStr room"
| "event_room (clear_board arrived) = field arrived ''room''"

subsection \<open>Local drawing\<close>

text \<open>The \<^verbatim>\<open>path:created\<close> handler; \<^verbatim>\<open>path\<close> is the reference \<^verbatim>\<open>e.path\<close>.\<close>

definition on_path_created :: "nat \<Rightarrow> whiteboard \<Rightarrow> whiteboard" where
  "on_path_created path wb =
     socket_emit ''draw''
       [(''room'', JStr (roomId wb)), (''path'', toJSON (heap wb ! path))]
       (wb\<lparr>history := history wb @ [path]\<rparr>)"

text \<open>
  Free drawing: the brush of fabric makes the path object, adds it to the canvas and fires
  \<^verbatim>\<open>path:created\<close> with it.
\<close>

definition free_draw :: "jsval \<Rightarrow> whiteboard \<Rightarrow> whiteboard" where
  "free_draw j wb =
     (let path = length (heap wb)
      in on_path_created path
           (wb\<lparr>heap := heap wb @ [Drawn j], canvas := canvas_add path (canvas wb)\<rparr>))"

text \<open>
  \<^verbatim>\<open>initRectMode\<close> and \<^verbatim>\<open>initCircleMode\<close>: the three handlers share the variables
  \<^verbatim>\<open>rect\<close> (or \<^verbatim>\<open>circle\<close>), \<^verbatim>\<open>origX\<close> and \<^verbatim>\<open>origY\<close>, which \<^verbatim>\<open>mouse:down\<close> sets. The
  \<^verbatim>\<open>mouse:down\<close> handler returns them; the other two take them.
\<close>

record closure =
  shape :: nat
  origX :: real
  origY :: real

definition rect_mouse_down :: "real \<times> real \<Rightarrow> whiteboard \<Rightarrow> closure \<times> whiteboard" where
  "rect_mouse_down pointer wb =
     (let rect = length (heap wb)
      in (\<lparr>shape = rect, origX = fst pointer, origY = snd pointer\<rparr>,
          wb\<lparr>isDrawing := True,
             heap := heap wb @ [Rect (fst pointer) (snd pointer) 0 0
                                  (brush_color (canvas wb)) (brush_width (canvas wb))],
             canvas := canvas_add rect (canvas wb)\<rparr>))"

definition rect_mouse_move :: "closure \<Rightarrow> real \<times> real \<Rightarrow> whiteboard \<Rightarrow> whiteboard" where
  "rect_mouse_move c pointer wb =
     (if \<not> isDrawing wb then wb
      else (case heap wb ! shape c of
              Rect l t w h s sw \<Rightarrow>
                wb\<lparr>heap := (heap wb)[shape c :=
                      Rect (min (origX c) (fst pointer)) (min (origY c) (snd pointer))
                           \<bar>fst pointer - origX c\<bar> \<bar>snd pointer - origY c\<bar> s sw]\<rparr>
            | _ \<Rightarrow> wb))"

definition rect_mouse_up :: "closure \<Rightarrow> whiteboard \<Rightarrow> whiteboard" where
  "rect_mouse_up c wb =
     socket_emit ''draw''
       [(''room'', JStr (roomId wb)), (''path'', toJSON (heap wb ! shape c))]
       (wb\<lparr>isDrawing := False, history := history wb @ [shape c], redoStack := []\<rparr>)"

definition circle_mouse_down :: "real \<times> real \<Rightarrow> whiteboard \<Rightarrow> closure \<times> whiteboard" where
  "circle_mouse_down pointer wb =
     (let circle = length (heap wb)
      in (\<lparr>shape = circle, origX = fst pointer, origY = snd pointer\<rparr>,
          wb\<lparr>isDrawing := True,
             heap := heap wb @ [Circle (fst pointer) (snd pointer) 0
                                  (brush_color (canvas wb)) (brush_width (canvas wb))],
             canvas := canvas_add circle (canvas wb)\<rparr>))"

definition circle_mouse_move :: "closure \<Rightarrow> real \<times> real \<Rightarrow> whiteboard \<Rightarrow> whiteboard" where
  "circle_mouse_move c pointer wb =
     (if \<not> isDrawing wb then wb
      else (case heap wb ! shape c of
              Circle l t r s sw \<Rightarrow>
                wb\<lparr>heap := (heap wb)[shape c :=
                      Circle l t (sqrt ((fst pointer - origX c)\<^sup>2 + (snd pointer - origY c)\<^sup>2) / 2)
                             s sw]\<rparr>
            | _ \<Rightarrow> wb))"

definition circle_mouse_up :: "closure \<Rightarrow> whiteboard \<Rightarrow> whiteboard" where
  "circle_mouse_up c wb =
     socket_emit ''draw''
       [(''room'', JStr (roomId wb)), (''path'', toJSON (heap wb ! shape c))]
       (wb\<lparr>isDrawing := False, history := history wb @ [shape c], redoStack := []\<rparr>)"

text \<open>
  A completed shape: \<^verbatim>\<open>mouse:down\<close>, any number of \<^verbatim>\<open>mouse:move\<close>, then \<^verbatim>\<open>mouse:up\<close>.
\<close>

definition draw_rect :: "real \<times> real \<Rightarrow> (real \<times> real) list \<Rightarrow> whiteboard \<Rightarrow> whiteboard" where
  "draw_rect p moves wb =
     (case rect_mouse_down p wb of
        (c, wb1) \<Rightarrow> rect_mouse_up c (fold (rect_mouse_move c) moves wb1))"

definition draw_circle :: "real \<times> real \<Rightarrow> (real \<times> real) list \<Rightarrow> whiteboard \<Rightarrow> whiteboard" where
  "draw_circle p moves wb =
     (case circle_mouse_down p wb of
        (c, wb1) \<Rightarrow> circle_mouse_up c (fold (circle_mouse_move c) moves wb1))"

datatype draw_action =
    FreeDraw jsval
  | RectDraw "real \<times> real" "(real \<times> real) list"
  | CircleDraw "real \<times> real" "(real \<times> real) list"

fun draw :: "draw_action \<Rightarrow> whiteboard \<Rightarrow> whiteboard" where
  "draw (FreeDraw j) wb = free_draw j wb"
| "draw (RectDraw p moves) wb = draw_rect p moves wb"
| "draw (CircleDraw p moves) wb = draw_circle p moves wb"

subsection \<open>Clear, undo, redo\<close>

definition clear :: "whiteboard \<Rightarrow> whiteboard" where
  "clear wb =
     socket_emit ''clear'' [(''room'', JStr (roomId wb))]
       (wb\<lparr>canvas := canvas_clear (canvas wb)\<rparr>)"

definition undo :: "whiteboard \<Rightarrow> whiteboard" where
  "undo wb =
     (if length (history wb) > 0 then
        let removed = last (history wb)
        in socket_emit ''undo''
             [(''room'', JStr (roomId wb)), (''objectData'', toJSON (heap wb ! removed))]
             (wb\<lparr>history := butlast (history wb),
                 redoStack := redoStack wb @ [removed],
                 canvas := canvas_remove removed (canvas wb)\<rparr>)
      else wb)"

definition redo :: "whiteboard \<Rightarrow> whiteboard" where
  "redo wb =
     (if length (redoStack wb) > 0 then
        let restored = last (redoStack wb)
        in socket_emit ''redo''
             [(''room'', JStr (roomId wb)), (''objectData'', toJSON (heap wb ! restored))]
             (wb\<lparr>redoStack := butlast (redoStack wb),
                 history := history wb @ [restored],
                 canvas := canvas_add restored (canvas wb)\<rparr>)
      else wb)"

subsection \<open>Runs of the client\<close>

text \<open>
  What can happen to a whiteboard, one action at a time: a completed local drawing, the
  buttons, a pointer sample, the drawings fetched at start, and a remote event.
\<close>

datatype action =
    Draw draw_action
  | Undo
  | Redo
  | Clear
  | MouseMove int "real \<times> real"
  | Load "(jsval \<times> jsval list option) list"
  | Receive remote_event

fun step :: "action \<Rightarrow> whiteboard \<Rightarrow> whiteboard" where
  "step (Draw d) wb = draw d wb"
| "step Undo wb = undo wb"
| "step Redo wb = redo wb"
| "step Clear wb = clear wb"
| "step (MouseMove now pointer) wb = on_mouse_move now pointer wb"
| "step (Load drawings) wb = loadExistingDrawings drawings wb"
| "step (Receive ev) wb = receive ev wb"

definition run :: "action list \<Rightarrow> whiteboard \<Rightarrow> whiteboard" where
  "run acts wb = fold step acts wb"

text \<open>
  What the runs keep true of the two stacks: no reference occurs twice in
  \<^verbatim>\<open>history\<close> followed by \<^verbatim>\<open>redoStack\<close>, and every reference in them is an object of the
  store.
\<close>

definition stacks_ok :: "whiteboard \<Rightarrow> bool" where
  "stacks_ok wb =
     (distinct (history wb @ redoStack wb)
      \<and> list_all (\<lambda>r. r < length (heap wb)) (history wb @ redoStack wb))"

subsection \<open>Two boards to run the handlers on\<close>

text \<open>
  A fresh board of 800 by 600 in room \<^verbatim>\<open>r1\<close> whose user has set no name, and the same
  board after one free-drawn path.
\<close>

definition board0 :: whiteboard where
  "board0 = Whiteboard_new SocketManager_new ''r1'' 800 600"

definition board1 :: whiteboard where
  "board1 = free_draw (JStr ''P1'') board0"

text \<open>
  A path as a peer's \<^verbatim>\<open>path.toJSON()\<close> sends it, an object with a \<^verbatim>\<open>type\<close>, from which
  fabric revives one object; and the fresh board in a container 30 wide, whose canvas
  \<^verbatim>\<open>resizeCanvas\<close> makes 10 less than nothing wide.
\<close>

definition path2 :: jsval where
  "path2 = JObject [(''type'', JStr ''path''), (''path'', JStr ''M 0 0 L 10 10'')]"


text \<open>A stream of six pointer samples, some closer together than 50 ms.\<close>

definition samples0 :: "sample list" where
  "samples0 = [(1000, (1, 1)), (1020, (5, 5)), (1050, (6, 6)), (1051, (- 7, 900)),
               (1060, (1, 1)), (1102, (1, 1))]"

section \<open>Basic facts\<close>

lemmas handler_defs =
  Whiteboard_new_def SocketManager_new_def joinRoom_def setUserName_def emit_def socket_emit_def
  js_or_def canvas_add_def canvas_remove_def canvas_clear_def
  on_mouse_move_def EMIT_INTERVAL_def updateCursor_def is_cursor_of_def
  on_cursor_update_def on_viewport_update_def add_revived_def enlivened_callback_def
  on_draw_update_def resizeCanvas_def
  on_undo_update_def on_redo_update_def on_clear_board_def
  on_path_created_def free_draw_def
  rect_mouse_down_def rect_mouse_move_def rect_mouse_up_def
  circle_mouse_down_def circle_mouse_move_def circle_mouse_up_def
  draw_rect_def draw_circle_def clear_def undo_def redo_def Let_def

lemma socket_emit_fields:
  "heap (socket_emit e d wb) = heap wb"
  "canvas (socket_emit e d wb) = canvas wb"
  "roomId (socket_emit e d wb) = roomId wb"
  "history (socket_emit e d wb) = history wb"
  "redoStack (socket_emit e d wb) = redoStack wb"
  "lastEmit (socket_emit e d wb) = lastEmit wb"
  "isDrawing (socket_emit e d wb) = isDrawing wb"
  "userName (socket (socket_emit e d wb)) = userName (socket wb)"
  by (simp_all add: socket_emit_def emit_def)

lemma sent_socket_emit:
  "sent (socket (socket_emit e d wb)) =
     sent (socket wb) @
       [(e, JObject (AList.update ''userName'' (js_or (userName (socket wb)) (JStr ''Anonymous'')) d))]"
  by (simp add: socket_emit_def emit_def)

lemma field_update_same: "field (JObject (AList.update k v al)) k = v"
  by (simp add: update_conv')

lemma field_update_other:
  "k' \<noteq> k \<Longrightarrow> field (JObject (AList.update k v al)) k' = field (JObject al) k'"
  by (simp add: update_conv')

lemma js_or_not_undefined: "js_or a (JStr ''Anonymous'') \<noteq> JUndefined"
  by (cases a) (simp_all add: js_or_def)

lemma board1_fields:
  "history board1 = [0]" "redoStack board1 = []" "objects (canvas board1) = [0]"
  "heap board1 = [Drawn (JStr ''P1'')]" "roomId board1 = ''r1''"
  by (simp_all add: board1_def board0_def handler_defs)

lemma clear_board_effect:
  "history (on_clear_board a wb) = history wb"
  "redoStack (on_clear_board a wb) = redoStack wb"
  "objects (canvas (on_clear_board a wb)) = []"
  by (simp_all add: on_clear_board_def canvas_clear_def)

lemma add_revived_effect:
  "history (add_revived j wb) = history wb @ [length (heap wb)]"
  "redoStack (add_revived j wb) = redoStack wb"
  "objects (canvas (add_revived j wb)) = objects (canvas wb) @ [length (heap wb)]"
  "heap (add_revived j wb) = heap wb @ [Drawn j]"
  by (simp_all add: add_revived_def canvas_add_def Let_def)

lemma enlivened_callback_effect:
  "history (enlivened_callback objs wb) =
     history wb @ [length (heap wb) ..< length (heap wb) + length objs]
   \<and> redoStack (enlivened_callback objs wb) = redoStack wb
   \<and> objects (canvas (enlivened_callback objs wb)) =
       objects (canvas wb) @ [length (heap wb) ..< length (heap wb) + length objs]
   \<and> heap (enlivened_callback objs wb) = heap wb @ map Drawn objs"
proof (induction objs arbitrary: wb)
  case Nil
  show ?case by (simp add: enlivened_callback_def)
next
  case (Cons j objs)
  have step: "enlivened_callback (j # objs) wb = enlivened_callback objs (add_revived j wb)"
    by (simp add: enlivened_callback_def)
  have up: "[length (heap wb) ..< length (heap wb) + length (j # objs)] =
      length (heap wb) # [Suc (length (heap wb)) ..< Suc (length (heap wb)) + length objs]"
    by (subst upt_rec) simp
  show ?case
    unfolding step up using Cons.IH [of "add_revived j wb"]
    by (simp add: add_revived_effect)
qed

lemma draw_update_effect:
  "room = roomId wb \<Longrightarrow> on_draw_update room path (Some objs) wb = enlivened_callback objs wb"
  "room = roomId wb \<Longrightarrow> on_draw_update room path None wb = wb"
  "room \<noteq> roomId wb \<Longrightarrow> on_draw_update room path revived wb = wb"
  by (simp_all add: on_draw_update_def)

lemma undo_update_effect:
  "room = roomId wb \<Longrightarrow> history wb \<noteq> [] \<Longrightarrow>
     history (on_undo_update room wb) = butlast (history wb)"
  "room = roomId wb \<Longrightarrow> history wb \<noteq> [] \<Longrightarrow>
     redoStack (on_undo_update room wb) = redoStack wb @ [last (history wb)]"
  "room = roomId wb \<Longrightarrow> history wb \<noteq> [] \<Longrightarrow>
     objects (canvas (on_undo_update room wb)) = remove1 (last (history wb)) (objects (canvas wb))"
  "room \<noteq> roomId wb \<Longrightarrow> on_undo_update room wb = wb"
  "history wb = [] \<Longrightarrow> on_undo_update room wb = wb"
  by (simp_all add: on_undo_update_def canvas_remove_def Let_def)

lemma redo_update_effect:
  "room = roomId wb \<Longrightarrow> redoStack wb \<noteq> [] \<Longrightarrow>
     redoStack (on_redo_update room wb) = butlast (redoStack wb)"
  "room = roomId wb \<Longrightarrow> redoStack wb \<noteq> [] \<Longrightarrow>
     history (on_redo_update room wb) = history wb @ [last (redoStack wb)]"
  "room = roomId wb \<Longrightarrow> redoStack wb \<noteq> [] \<Longrightarrow>
     objects (canvas (on_redo_update room wb)) = objects (canvas wb) @ [last (redoStack wb)]"
  "room \<noteq> roomId wb \<Longrightarrow> on_redo_update room wb = wb"
  "redoStack wb = [] \<Longrightarrow> on_redo_update room wb = wb"
  by (simp_all add: on_redo_update_def canvas_add_def Let_def)

lemma other_room_effect:
  "room \<noteq> roomId wb \<Longrightarrow> on_cursor_update room name x y wb = wb"
  "room \<noteq> roomId wb \<Longrightarrow> on_viewport_update room v wb = wb"
  by (simp_all add: on_cursor_update_def on_viewport_update_def)

lemma receive_other_room:
  "\<forall>a. ev \<noteq> clear_board a \<Longrightarrow> event_room ev \<noteq> JStr (roomId wb) \<Longrightarrow> receive ev wb = wb"
  by (cases ev)
     (simp_all add: other_room_effect draw_update_effect undo_update_effect redo_update_effect)

subsection \<open>The pointer handler\<close>

lemma on_mouse_move_emits:
  assumes "now - lastEmit wb > EMIT_INTERVAL"
  shows "sent (socket (on_mouse_move now p wb)) = sent (socket wb) @ [cursor_move_event wb (now, p)]"
    and "lastEmit (on_mouse_move now p wb) = now"
  using assms
  by (simp_all add: on_mouse_move_def Let_def sent_socket_emit cursor_move_event_def)

lemma on_mouse_move_drops:
  "\<not> now - lastEmit wb > EMIT_INTERVAL \<Longrightarrow> on_mouse_move now p wb = wb"
  by (simp add: on_mouse_move_def)

lemma on_mouse_move_frame:
  "roomId (on_mouse_move now p wb) = roomId wb"
  "canvas (on_mouse_move now p wb) = canvas wb"
  "userName (socket (on_mouse_move now p wb)) = userName (socket wb)"
  "heap (on_mouse_move now p wb) = heap wb"
  "history (on_mouse_move now p wb) = history wb"
  "redoStack (on_mouse_move now p wb) = redoStack wb"
  by (simp_all add: on_mouse_move_def Let_def socket_emit_fields)

lemma cursor_move_event_frame:
  "cursor_move_event (on_mouse_move now p wb) = cursor_move_event wb"
  by (rule ext) (simp add: cursor_move_event_def on_mouse_move_frame)

lemma emitted_at_Cons:
  "emitted_at (s # ss) wb =
     (if fst s - lastEmit wb > EMIT_INTERVAL
      then s # emitted_at ss (on_mouse_move (fst s) (snd s) wb)
      else emitted_at ss wb)"
proof (cases "fst s - lastEmit wb > EMIT_INTERVAL")
  case True
  then show ?thesis
    using on_mouse_move_emits(1) [where wb = wb and now = "fst s" and p = "snd s"] by (simp add: Let_def)
next
  case False
  then show ?thesis
    using on_mouse_move_drops [where wb = wb and now = "fst s" and p = "snd s"] by (simp add: Let_def)
qed

lemma sent_track:
  "sent (socket (track ss wb)) = sent (socket wb) @ map (cursor_move_event wb) (emitted_at ss wb)"
proof (induction ss arbitrary: wb)
  case Nil
  show ?case by (simp add: track_def)
next
  case (Cons s ss)
  let ?wb' = "on_mouse_move (fst s) (snd s) wb"
  have step: "track (s # ss) wb = track ss ?wb'"
    by (simp add: track_def)
  show ?case
  proof (cases "fst s - lastEmit wb > EMIT_INTERVAL")
    case True
    have "sent (socket (track ss ?wb')) =
        sent (socket ?wb') @ map (cursor_move_event ?wb') (emitted_at ss ?wb')"
      by (rule Cons.IH)
    also have "sent (socket ?wb') = sent (socket wb) @ [cursor_move_event wb (fst s, snd s)]"
      using True by (rule on_mouse_move_emits(1))
    finally show ?thesis
      using True by (simp add: step emitted_at_Cons cursor_move_event_frame del: emitted_at.simps)
  next
    case False
    then have "?wb' = wb" by (rule on_mouse_move_drops)
    then show ?thesis
      using False Cons.IH [of wb] by (simp add: step emitted_at_Cons del: emitted_at.simps)
  qed
qed

lemma subseq_emitted_at: "subseq (emitted_at ss wb) ss"
proof (induction ss arbitrary: wb)
  case Nil
  show ?case by simp
next
  case (Cons s ss)
  show ?case
  proof (cases "fst s - lastEmit wb > EMIT_INTERVAL")
    case True
    then show ?thesis
      using Cons.IH by (simp add: emitted_at_Cons del: emitted_at.simps)
  next
    case False
    then have "emitted_at (s # ss) wb = emitted_at ss wb"
      by (simp add: emitted_at_Cons del: emitted_at.simps)
    moreover have "subseq (emitted_at ss wb) (s # ss)"
      using Cons.IH by (rule list_emb_Cons)
    ultimately show ?thesis by simp
  qed
qed

lemma emitted_at_spaced:
  "sorted_wrt (\<lambda>a b. fst b - fst a > EMIT_INTERVAL) (emitted_at ss wb)
   \<and> (\<forall>t \<in> set (emitted_at ss wb). fst t - lastEmit wb > EMIT_INTERVAL)"
proof (induction ss arbitrary: wb)
  case Nil
  show ?case by simp
next
  case (Cons s ss)
  let ?wb' = "on_mouse_move (fst s) (snd s) wb"
  show ?case
  proof (cases "fst s - lastEmit wb > EMIT_INTERVAL")
    case True
    then have le: "lastEmit ?wb' = fst s" by (rule on_mouse_move_emits(2))
    from Cons.IH [of ?wb'] have
      tl: "sorted_wrt (\<lambda>a b. fst b - fst a > EMIT_INTERVAL) (emitted_at ss ?wb')"
      and after: "\<forall>t \<in> set (emitted_at ss ?wb'). fst t - fst s > EMIT_INTERVAL"
      by (simp_all add: le)
    from after True have "\<forall>t \<in> set (emitted_at ss ?wb'). fst t - lastEmit wb > EMIT_INTERVAL"
      by (auto simp: EMIT_INTERVAL_def)
    with tl after True show ?thesis
      by (simp add: emitted_at_Cons del: emitted_at.simps)
  next
    case False
    then show ?thesis
      using Cons.IH [of wb] by (simp add: emitted_at_Cons del: emitted_at.simps)
  qed
qed

lemma emitted_at_samples0:
  "emitted_at samples0 board0 = [(1000, (1, 1)), (1051, (- 7, 900)), (1102, (1, 1))]"
  by (simp add: samples0_def board0_def handler_defs)

lemma board0_fields:
  "roomId board0 = ''r1''" "width (canvas board0) = 800" "height (canvas board0) = 600"
  "userName (socket board0) = JStr []" "lastEmit board0 = 0"
  "sent (socket board0) = [(''join'', JObject [(''room'', JStr ''r1''), (''userName'', JStr [])])]"
  "history board0 = []" "redoStack board0 = []" "heap board0 = []" "objects (canvas board0) = []"
  by (simp_all add: board0_def handler_defs)

subsection \<open>Drawing pushes one new reference\<close>

lemma rect_mouse_move_frame:
  "history (rect_mouse_move c p wb) = history wb"
  "redoStack (rect_mouse_move c p wb) = redoStack wb"
  "length (heap (rect_mouse_move c p wb)) = length (heap wb)"
  by (simp_all add: rect_mouse_move_def split: fobject.splits)

lemma circle_mouse_move_frame:
  "history (circle_mouse_move c p wb) = history wb"
  "redoStack (circle_mouse_move c p wb) = redoStack wb"
  "length (heap (circle_mouse_move c p wb)) = length (heap wb)"
  by (simp_all add: circle_mouse_move_def split: fobject.splits)

lemma fold_rect_mouse_move_frame:
  "history (fold (rect_mouse_move c) ms wb) = history wb
   \<and> redoStack (fold (rect_mouse_move c) ms wb) = redoStack wb
   \<and> length (heap (fold (rect_mouse_move c) ms wb)) = length (heap wb)"
  by (induction ms arbitrary: wb) (simp_all add: rect_mouse_move_frame)

lemma fold_circle_mouse_move_frame:
  "history (fold (circle_mouse_move c) ms wb) = history wb
   \<and> redoStack (fold (circle_mouse_move c) ms wb) = redoStack wb
   \<and> length (heap (fold (circle_mouse_move c) ms wb)) = length (heap wb)"
  by (induction ms arbitrary: wb) (simp_all add: circle_mouse_move_frame)

lemma free_draw_effect:
  "history (free_draw j wb) = history wb @ [length (heap wb)]"
  "redoStack (free_draw j wb) = redoStack wb"
  "length (heap (free_draw j wb)) = Suc (length (heap wb))"
  by (simp_all add: free_draw_def on_path_created_def Let_def socket_emit_fields)

lemma draw_rect_effect:
  "history (draw_rect p ms wb) = history wb @ [length (heap wb)]"
  "redoStack (draw_rect p ms wb) = []"
  "length (heap (draw_rect p ms wb)) = Suc (length (heap wb))"
  by (simp_all add: draw_rect_def rect_mouse_down_def rect_mouse_up_def Let_def
        socket_emit_fields fold_rect_mouse_move_frame)

lemma draw_circle_effect:
  "history (draw_circle p ms wb) = history wb @ [length (heap wb)]"
  "redoStack (draw_circle p ms wb) = []"
  "length (heap (draw_circle p ms wb)) = Suc (length (heap wb))"
  by (simp_all add: draw_circle_def circle_mouse_down_def circle_mouse_up_def Let_def
        socket_emit_fields fold_circle_mouse_move_frame)

lemma draw_effect:
  "history (draw d wb) = history wb @ [length (heap wb)]"
  "length (heap (draw d wb)) = Suc (length (heap wb))"
  "redoStack (draw d wb) = redoStack wb \<or> redoStack (draw d wb) = []"
  by (cases d; simp add: free_draw_effect draw_rect_effect draw_circle_effect)+

lemma history_fold_draw:
  "\<exists>new. history (fold draw ds wb) = history wb @ new \<and> length new = length ds"
proof (induction ds arbitrary: wb)
  case Nil
  show ?case by simp
next
  case (Cons d ds)
  from Cons.IH [of "draw d wb"] obtain new where
    "history (fold draw ds (draw d wb)) = history (draw d wb) @ new" "length new = length ds"
    by blast
  then have "history (fold draw (d # ds) wb) = history wb @ (length (heap wb) # new)
      \<and> length (length (heap wb) # new) = length (d # ds)"
    by (simp add: draw_effect)
  then show ?case by blast
qed

lemma history_undo: "history (undo wb) = butlast (history wb)"
  by (simp add: undo_def Let_def socket_emit_fields)

lemma history_funpow_undo: "history ((undo ^^ k) wb) = (butlast ^^ k) (history wb)"
  by (induction k) (simp_all add: history_undo)

lemma funpow_butlast_append: "(butlast ^^ length ys) (xs @ ys) = xs"
proof (induction ys rule: rev_induct)
  case Nil
  show ?case by simp
next
  case (snoc y ys)
  have "(butlast ^^ length (ys @ [y])) (xs @ ys @ [y]) = (butlast ^^ length ys) (butlast ((xs @ ys) @ [y]))"
    by (simp add: funpow_swap1)
  also have "\<dots> = (butlast ^^ length ys) (xs @ ys)"
    by (simp only: butlast_snoc)
  finally show ?case using snoc.IH by simp
qed

subsection \<open>The stacks stay disjoint\<close>

lemma stacks_ok_iff:
  "stacks_ok wb \<longleftrightarrow>
     distinct (history wb) \<and> distinct (redoStack wb)
     \<and> set (history wb) \<inter> set (redoStack wb) = {}
     \<and> (\<forall>r \<in> set (history wb). r < length (heap wb))
     \<and> (\<forall>r \<in> set (redoStack wb). r < length (heap wb))"
  by (simp add: stacks_ok_def list_all_iff ball_Un)

lemma stacks_ok_push:
  assumes ok: "stacks_ok wb"
    and h: "history wb' = history wb @ [length (heap wb)]"
    and r: "redoStack wb' = redoStack wb \<or> redoStack wb' = []"
    and l: "length (heap wb') = Suc (length (heap wb))"
  shows "stacks_ok wb'"
proof -
  from ok have d: "distinct (history wb)" "distinct (redoStack wb)"
      "set (history wb) \<inter> set (redoStack wb) = {}"
    and bh: "\<forall>r \<in> set (history wb). r < length (heap wb)"
    and br: "\<forall>r \<in> set (redoStack wb). r < length (heap wb)"
    by (simp_all add: stacks_ok_iff)
  from bh have fh: "length (heap wb) \<notin> set (history wb)" by blast
  from br have fr: "length (heap wb) \<notin> set (redoStack wb)" by blast
  have 1: "distinct (history wb')" using d(1) fh by (simp add: h)
  have 2: "\<forall>r \<in> set (history wb'). r < length (heap wb')"
    using bh by (simp add: h l less_Suc_eq)
  from r show ?thesis
  proof
    assume e: "redoStack wb' = redoStack wb"
    have "set (history wb') \<inter> set (redoStack wb') = {}"
      using d(3) fr by (simp add: h e)
    moreover have "\<forall>r \<in> set (redoStack wb'). r < length (heap wb')"
      using br by (simp add: e l less_Suc_eq)
    ultimately show ?thesis
      using 1 2 d(2) by (simp add: stacks_ok_iff e)
  next
    assume e: "redoStack wb' = []"
    show ?thesis
      using 1 2 by (simp add: stacks_ok_iff e)
  qed
qed

lemma stacks_ok_same:
  assumes ok: "stacks_ok wb"
    and h: "history wb' = history wb" and r: "redoStack wb' = redoStack wb"
    and l: "length (heap wb) \<le> length (heap wb')"
  shows "stacks_ok wb'"
proof -
  from ok have bh: "\<forall>r \<in> set (history wb). r < length (heap wb)"
    and br: "\<forall>r \<in> set (redoStack wb). r < length (heap wb)"
    by (simp_all add: stacks_ok_iff)
  from bh l have "\<forall>r \<in> set (history wb). r < length (heap wb')"
    using less_le_trans by blast
  moreover from br l have "\<forall>r \<in> set (redoStack wb). r < length (heap wb')"
    using less_le_trans by blast
  ultimately show ?thesis
    using ok by (simp add: stacks_ok_iff h r)
qed

lemma stacks_ok_move:
  assumes d: "distinct (xs @ [x])" "distinct ys" "set (xs @ [x]) \<inter> set ys = {}"
  shows "distinct xs \<and> distinct (ys @ [x]) \<and> set xs \<inter> set (ys @ [x]) = {}"
  using d by auto

lemma stacks_ok_move_to_redo:
  assumes ok: "stacks_ok wb" and ne: "history wb \<noteq> []"
    and h: "history wb' = butlast (history wb)"
    and r: "redoStack wb' = redoStack wb @ [last (history wb)]"
    and l: "length (heap wb') = length (heap wb)"
  shows "stacks_ok wb'"
proof -
  define xs where "xs = butlast (history wb)"
  define x where "x = last (history wb)"
  have hx: "history wb = xs @ [x]"
    using ne by (simp add: xs_def x_def)
  from ok have "distinct (xs @ [x])" "distinct (redoStack wb)"
      "set (xs @ [x]) \<inter> set (redoStack wb) = {}"
    and bh: "\<forall>r \<in> set (xs @ [x]). r < length (heap wb)"
    and br: "\<forall>r \<in> set (redoStack wb). r < length (heap wb)"
    by (simp_all add: stacks_ok_iff hx)
  then have m: "distinct xs \<and> distinct (redoStack wb @ [x])
      \<and> set xs \<inter> set (redoStack wb @ [x]) = {}"
    by (intro stacks_ok_move)
  have h': "history wb' = xs" and r': "redoStack wb' = redoStack wb @ [x]"
    by (simp_all add: h r xs_def x_def)
  from bh br have "(\<forall>r \<in> set xs. r < length (heap wb))
      \<and> (\<forall>r \<in> set (redoStack wb @ [x]). r < length (heap wb))"
    by simp
  with m show ?thesis
    unfolding stacks_ok_iff h' r' l by blast
qed

lemma stacks_ok_move_to_history:
  assumes ok: "stacks_ok wb" and ne: "redoStack wb \<noteq> []"
    and r: "redoStack wb' = butlast (redoStack wb)"
    and h: "history wb' = history wb @ [last (redoStack wb)]"
    and l: "length (heap wb') = length (heap wb)"
  shows "stacks_ok wb'"
proof -
  define xs where "xs = butlast (redoStack wb)"
  define x where "x = last (redoStack wb)"
  have rx: "redoStack wb = xs @ [x]"
    using ne by (simp add: xs_def x_def)
  from ok have "distinct (xs @ [x])" "distinct (history wb)"
      "set (xs @ [x]) \<inter> set (history wb) = {}"
    and br: "\<forall>r \<in> set (xs @ [x]). r < length (heap wb)"
    and bh: "\<forall>r \<in> set (history wb). r < length (heap wb)"
    by (simp_all add: stacks_ok_iff rx Int_commute)
  then have m: "distinct xs \<and> distinct (history wb @ [x])
      \<and> set xs \<inter> set (history wb @ [x]) = {}"
    by (intro stacks_ok_move)
  have r': "redoStack wb' = xs" and h': "history wb' = history wb @ [x]"
    by (simp_all add: h r xs_def x_def)
  from bh br have "(\<forall>r \<in> set xs. r < length (heap wb))
      \<and> (\<forall>r \<in> set (history wb @ [x]). r < length (heap wb))"
    by simp
  with m show ?thesis
    unfolding stacks_ok_iff h' r' l by (simp add: Int_commute)
qed

lemma stacks_ok_draw: "stacks_ok wb \<Longrightarrow> stacks_ok (draw d wb)"
  by (rule stacks_ok_push [where wb = wb]) (simp_all add: draw_effect)

lemma stacks_ok_undo:
  assumes "stacks_ok wb"
  shows "stacks_ok (undo wb)"
proof (cases "history wb = []")
  case True
  with assms show ?thesis by (simp add: undo_def)
next
  case False
  with assms show ?thesis
    by (rule stacks_ok_move_to_redo) (simp_all add: undo_def Let_def socket_emit_fields False)
qed

lemma stacks_ok_redo:
  assumes "stacks_ok wb"
  shows "stacks_ok (redo wb)"
proof (cases "redoStack wb = []")
  case True
  with assms show ?thesis by (simp add: redo_def)
next
  case False
  with assms show ?thesis
    by (rule stacks_ok_move_to_history) (simp_all add: redo_def Let_def socket_emit_fields False)
qed

lemma stacks_ok_clear: "stacks_ok wb \<Longrightarrow> stacks_ok (clear wb)"
  by (rule stacks_ok_same [where wb = wb]) (simp_all add: clear_def socket_emit_fields)

lemma stacks_ok_mouse_move: "stacks_ok wb \<Longrightarrow> stacks_ok (on_mouse_move now p wb)"
  by (rule stacks_ok_same [where wb = wb])
     (simp_all add: on_mouse_move_def Let_def socket_emit_fields)

lemma stacks_ok_add_revived: "stacks_ok wb \<Longrightarrow> stacks_ok (add_revived j wb)"
  by (rule stacks_ok_push [where wb = wb]) (simp_all add: add_revived_def Let_def)

lemma stacks_ok_enlivened_callback: "stacks_ok wb \<Longrightarrow> stacks_ok (enlivened_callback objs wb)"
  unfolding enlivened_callback_def
  by (induction objs arbitrary: wb) (simp_all add: stacks_ok_add_revived)

lemma stacks_ok_load: "stacks_ok wb \<Longrightarrow> stacks_ok (loadExistingDrawings drawings wb)"
proof (induction drawings arbitrary: wb)
  case Nil
  then show ?case by simp
next
  case (Cons d drawings)
  obtain path revived where d: "d = (path, revived)"
    by (cases d)
  show ?case
  proof (cases "truthy path \<and> typeof_object path")
    case False
    then have "loadExistingDrawings (d # drawings) wb = loadExistingDrawings drawings wb"
      by (auto simp: d)
    with Cons show ?thesis by simp
  next
    case guard: True
    show ?thesis
    proof (cases revived)
      case None
      with guard have "loadExistingDrawings (d # drawings) wb = wb"
        by (simp add: d)
      with Cons.prems show ?thesis by simp
    next
      case (Some objs)
      with guard have "loadExistingDrawings (d # drawings) wb =
          loadExistingDrawings drawings (enlivened_callback objs wb)"
        by (simp add: d)
      moreover have "stacks_ok (enlivened_callback objs wb)"
        using Cons.prems by (rule stacks_ok_enlivened_callback)
      ultimately show ?thesis
        using Cons.IH by simp
    qed
  qed
qed

lemma stacks_ok_cursor_update: "stacks_ok wb \<Longrightarrow> stacks_ok (on_cursor_update room name x y wb)"
  by (rule stacks_ok_same [where wb = wb])
     (simp_all add: on_cursor_update_def updateCursor_def Let_def)

lemma stacks_ok_viewport_update: "stacks_ok wb \<Longrightarrow> stacks_ok (on_viewport_update room v wb)"
  by (rule stacks_ok_same [where wb = wb]) (simp_all add: on_viewport_update_def)

lemma stacks_ok_draw_update: "stacks_ok wb \<Longrightarrow> stacks_ok (on_draw_update room j revived wb)"
  by (simp add: on_draw_update_def stacks_ok_enlivened_callback split: option.split)

lemma stacks_ok_undo_update:
  assumes "stacks_ok wb"
  shows "stacks_ok (on_undo_update room wb)"
proof (cases "room = roomId wb \<and> history wb \<noteq> []")
  case True
  then have ne: "history wb \<noteq> []" by simp
  from assms ne show ?thesis
    by (rule stacks_ok_move_to_redo) (simp_all add: on_undo_update_def Let_def True)
next
  case False
  then have "on_undo_update room wb = wb"
    using undo_update_effect(4,5) by blast
  with assms show ?thesis by simp
qed

lemma stacks_ok_redo_update:
  assumes "stacks_ok wb"
  shows "stacks_ok (on_redo_update room wb)"
proof (cases "room = roomId wb \<and> redoStack wb \<noteq> []")
  case True
  then have ne: "redoStack wb \<noteq> []" by simp
  from assms ne show ?thesis
    by (rule stacks_ok_move_to_history) (simp_all add: on_redo_update_def Let_def True)
next
  case False
  then have "on_redo_update room wb = wb"
    using redo_update_effect(4,5) by blast
  with assms show ?thesis by simp
qed

lemma stacks_ok_clear_board: "stacks_ok wb \<Longrightarrow> stacks_ok (on_clear_board a wb)"
  by (rule stacks_ok_same [where wb = wb]) (simp_all add: on_clear_board_def)

lemma stacks_ok_receive: "stacks_ok wb \<Longrightarrow> stacks_ok (receive ev wb)"
  by (cases ev)
     (simp_all add: stacks_ok_cursor_update stacks_ok_viewport_update stacks_ok_draw_update
        stacks_ok_undo_update stacks_ok_redo_update stacks_ok_clear_board)

lemma stacks_ok_step: "stacks_ok wb \<Longrightarrow> stacks_ok (step a wb)"
  by (cases a)
     (simp_all add: stacks_ok_draw stacks_ok_undo stacks_ok_redo stacks_ok_clear
        stacks_ok_mouse_move stacks_ok_load stacks_ok_receive)

lemma stacks_ok_run: "stacks_ok wb \<Longrightarrow> stacks_ok (run acts wb)"
  unfolding run_def by (induction acts arbitrary: wb) (simp_all add: stacks_ok_step)

lemma stacks_ok_new: "stacks_ok (Whiteboard_new sock room w h)"
  by (simp add: stacks_ok_def Whiteboard_new_def)

section \<open>The user name on every emitted event\<close>

text \<open>
  C9. \<^verbatim>\<open>SocketManager.emit\<close> sends exactly one event, under the caller's event name. Its
  payload has the caller's entries under every key but \<^verbatim>\<open>userName\<close>; under \<^verbatim>\<open>userName\<close> it
  has the manager's stored name when that is truthy and \<^verbatim>\<open>'Anonymous'\<close> otherwise, whatever
  the caller put there. So the field is never \<^verbatim>\<open>undefined\<close>; it is the stored name when
  that is a non-empty string, and \<^verbatim>\<open>'Anonymous'\<close> when the stored name is the empty
  string, \<^verbatim>\<open>undefined\<close> or \<^verbatim>\<open>null\<close>.
\<close>

theorem C9_emit_userName:
  "\<exists>payload. sent (emit event data sm) = sent sm @ [(event, payload)]
     \<and> (\<forall>k. k \<noteq> ''userName'' \<longrightarrow> field payload k = field (JObject data) k)
     \<and> field payload ''userName'' = (if truthy (userName sm) then userName sm else JStr ''Anonymous'')
     \<and> field payload ''userName'' \<noteq> JUndefined
     \<and> (\<forall>s. userName sm = JStr s \<and> s \<noteq> [] \<longrightarrow> field payload ''userName'' = JStr s)
     \<and> (userName sm = JStr [] \<or> userName sm = JUndefined \<or> userName sm = JNull
          \<longrightarrow> field payload ''userName'' = JStr ''Anonymous'')"
proof -
  let ?name = "js_or (userName sm) (JStr ''Anonymous'')"
  let ?payload = "JObject (AList.update ''userName'' ?name data)"
  have sent: "sent (emit event data sm) = sent sm @ [(event, ?payload)]"
    by (simp add: emit_def)
  have others: "\<forall>k. k \<noteq> ''userName'' \<longrightarrow> field ?payload k = field (JObject data) k"
    using field_update_other by blast
  have name: "field ?payload ''userName'' = ?name"
    by (rule field_update_same)
  have ite: "field ?payload ''userName'' =
      (if truthy (userName sm) then userName sm else JStr ''Anonymous'')"
    unfolding name by (simp add: js_or_def)
  have defined: "field ?payload ''userName'' \<noteq> JUndefined"
    unfolding name by (rule js_or_not_undefined)
  have stored: "\<forall>s. userName sm = JStr s \<and> s \<noteq> [] \<longrightarrow> field ?payload ''userName'' = JStr s"
    unfolding name by (simp add: js_or_def)
  have unset: "userName sm = JStr [] \<or> userName sm = JUndefined \<or> userName sm = JNull
        \<longrightarrow> field ?payload ''userName'' = JStr ''Anonymous''"
    unfolding name by (auto simp: js_or_def)
  from sent others ite defined stored unset show ?thesis
    by blast
qed

text \<open>
  A manager whose name was set to \<^verbatim>\<open>null\<close> sends \<^verbatim>\<open>'Anonymous'\<close> in place of the name the
  caller supplied, and the caller's room as it was.
\<close>

theorem C9_emit_userName_witness:
  "field (snd (last (sent (emit ''draw'' [(''userName'', JStr ''Mallory''), (''room'', JStr ''r1'')]
      (setUserName JNull SocketManager_new))))) ''userName'' = JStr ''Anonymous''
   \<and> field (snd (last (sent (emit ''draw'' [(''userName'', JStr ''Mallory''), (''room'', JStr ''r1'')]
      (setUserName JNull SocketManager_new))))) ''room'' = JStr ''r1''
   \<and> field (snd (last (sent (emit ''draw'' [(''userName'', JStr ''Mallory''), (''room'', JStr ''r1'')]
      (setUserName (JStr ''alice'') SocketManager_new))))) ''userName'' = JStr ''alice''"
proof -
  let ?sm = "setUserName JNull SocketManager_new"
  let ?sm' = "setUserName (JStr ''alice'') SocketManager_new"
  let ?data = "[(''userName'', JStr ''Mallory''), (''room'', JStr ''r1'')]"
  have unset: "userName ?sm = JStr [] \<or> userName ?sm = JUndefined \<or> userName ?sm = JNull"
    by (simp add: setUserName_def)
  have stored: "userName ?sm' = JStr ''alice'' \<and> ''alice'' \<noteq> []"
    by (simp add: setUserName_def)
  from C9_emit_userName [of "''draw''" ?data ?sm] obtain payload where
    p: "sent (emit ''draw'' ?data ?sm) = sent ?sm @ [(''draw'', payload)]"
       "\<forall>k. k \<noteq> ''userName'' \<longrightarrow> field payload k = field (JObject ?data) k"
       "userName ?sm = JStr [] \<or> userName ?sm = JUndefined \<or> userName ?sm = JNull
          \<longrightarrow> field payload ''userName'' = JStr ''Anonymous''"
    by blast
  from C9_emit_userName [of "''draw''" ?data ?sm'] obtain payload' where
    q: "sent (emit ''draw'' ?data ?sm') = sent ?sm' @ [(''draw'', payload')]"
       "\<forall>s. userName ?sm' = JStr s \<and> s \<noteq> [] \<longrightarrow> field payload' ''userName'' = JStr s"
    by blast
  from p(3) unset have 1: "field payload ''userName'' = JStr ''Anonymous''" by blast
  from p(2) have 2: "field payload ''room'' = field (JObject ?data) ''room''" by simp
  from q(2) stored have 3: "field payload' ''userName'' = JStr ''alice''" by blast
  from 1 2 3 show ?thesis using p(1) q(1) by simp
qed

section \<open>Undo and clear\<close>

text \<open>
  C5. With a non-empty \<^verbatim>\<open>history\<close>, \<^verbatim>\<open>undo\<close> pops its top, pushes that object on
  \<^verbatim>\<open>redoStack\<close>, removes it from the canvas and emits one \<^verbatim>\<open>undo\<close> event that carries the
  room and the object's serialisation. With an empty \<^verbatim>\<open>history\<close> it leaves the whole
  whiteboard, the list of emitted events included, as it was.
\<close>

theorem C5_undo:
  "(history wb \<noteq> [] \<longrightarrow>
      history (undo wb) = butlast (history wb)
    \<and> redoStack (undo wb) = redoStack wb @ [last (history wb)]
    \<and> objects (canvas (undo wb)) = remove1 (last (history wb)) (objects (canvas wb))
    \<and> sent (socket (undo wb)) = sent (socket wb) @
        [(''undo'', JObject [(''room'', JStr (roomId wb)),
                            (''objectData'', toJSON (heap wb ! last (history wb))),
                            (''userName'', js_or (userName (socket wb)) (JStr ''Anonymous''))])])
   \<and> (history wb = [] \<longrightarrow> undo wb = wb)"
  by (simp add: undo_def Let_def socket_emit_fields sent_socket_emit canvas_remove_def)

text \<open>
  On the board with one path, undo empties \<^verbatim>\<open>history\<close> and the canvas and sends the
  path's serialisation; on the fresh board it does nothing.
\<close>

theorem C5_undo_witness:
  "history (undo board1) = [] \<and> redoStack (undo board1) = [0]
   \<and> objects (canvas (undo board1)) = []
   \<and> snd (last (sent (socket (undo board1)))) =
        JObject [(''room'', JStr ''r1''), (''objectData'', JStr ''P1''),
                 (''userName'', JStr ''Anonymous'')]
   \<and> undo board0 = board0"
proof -
  have ne: "history board1 \<noteq> []" by (simp add: board1_fields)
  have e: "history board0 = []" by (simp add: board0_def handler_defs)
  have u: "userName (socket board1) = JStr []" by (simp add: board1_def board0_def handler_defs)
  from C5_undo [of board1] ne C5_undo [of board0] e show ?thesis
    by (simp add: board1_fields u js_or_def)
qed

text \<open>
  C10. \<^verbatim>\<open>clear\<close> empties the canvas and emits one \<^verbatim>\<open>clear\<close> event for the client's
  room, and leaves \<^verbatim>\<open>history\<close> and \<^verbatim>\<open>redoStack\<close> as they were; so when \<^verbatim>\<open>history\<close> was
  non-empty, an \<^verbatim>\<open>undo\<close> right after still pops its top onto \<^verbatim>\<open>redoStack\<close> and emits an
  \<^verbatim>\<open>undo\<close> event with that object's serialisation.
\<close>

theorem C10_clear:
  "objects (canvas (clear wb)) = []
   \<and> sent (socket (clear wb)) = sent (socket wb) @
        [(''clear'', JObject [(''room'', JStr (roomId wb)),
                             (''userName'', js_or (userName (socket wb)) (JStr ''Anonymous''))])]
   \<and> history (clear wb) = history wb
   \<and> redoStack (clear wb) = redoStack wb
   \<and> (history wb \<noteq> [] \<longrightarrow>
        history (undo (clear wb)) = butlast (history wb)
      \<and> redoStack (undo (clear wb)) = redoStack wb @ [last (history wb)]
      \<and> sent (socket (undo (clear wb))) = sent (socket (clear wb)) @
          [(''undo'', JObject [(''room'', JStr (roomId wb)),
                              (''objectData'', toJSON (heap wb ! last (history wb))),
                              (''userName'', js_or (userName (socket wb)) (JStr ''Anonymous''))])])"
  by (simp add: clear_def undo_def Let_def socket_emit_fields sent_socket_emit canvas_clear_def)

text \<open>
  The board with one path: after \<^verbatim>\<open>clear\<close> the canvas is empty and \<^verbatim>\<open>history\<close> still
  holds the path; the \<^verbatim>\<open>undo\<close> that follows pops it and is sent after the \<^verbatim>\<open>clear\<close>.
\<close>

theorem C10_clear_witness:
  "objects (canvas (clear board1)) = [] \<and> history (clear board1) = [0]
   \<and> history (undo (clear board1)) = [] \<and> redoStack (undo (clear board1)) = [0]
   \<and> map fst (sent (socket (undo (clear board1)))) = [''join'', ''draw'', ''clear'', ''undo'']"
proof -
  have ne: "history board1 \<noteq> []" by (simp add: board1_fields)
  have s: "map fst (sent (socket board1)) = [''join'', ''draw'']"
    by (simp add: board1_def board0_def handler_defs)
  from C10_clear [of board1] ne show ?thesis
    by (simp add: board1_fields s)
qed

section \<open>New drawings and the redo stack\<close>

text \<open>
  C1. A new draw action is to clear \<^verbatim>\<open>redoStack\<close>. The \<^verbatim>\<open>mouse:up\<close> handlers of the
  rectangle and circle modes do; the \<^verbatim>\<open>path:created\<close> handler does not. Draw a path, undo
  it, draw a second path: the first path is still on \<^verbatim>\<open>redoStack\<close>, and a \<^verbatim>\<open>redo\<close> then
  puts it on \<^verbatim>\<open>history\<close> above the second. A rectangle or a circle drawn in place of the
  second path leaves \<^verbatim>\<open>redoStack\<close> empty.
\<close>

theorem C1_path_created_keeps_redoStack:
  "redoStack (undo board1) = [0]
   \<and> redoStack (free_draw (JStr ''P2'') (undo board1)) = [0]
   \<and> history (redo (free_draw (JStr ''P2'') (undo board1))) = [1, 0]
   \<and> redoStack (draw_rect (1, 1) [(3, 4)] (undo board1)) = []
   \<and> redoStack (draw_circle (1, 1) [(3, 4)] (undo board1)) = []"
  by (simp add: board1_def board0_def handler_defs)

section \<open>Remote events\<close>

text \<open>
  C2, as claimed: no handler of \<^verbatim>\<open>draw_update\<close>, \<^verbatim>\<open>undo_update\<close>, \<^verbatim>\<open>redo_update\<close> or
  \<^verbatim>\<open>clear_board\<close> modifies \<^verbatim>\<open>history\<close> or \<^verbatim>\<open>redoStack\<close>. On the board with one path, an
  \<^verbatim>\<open>undo_update\<close> of the board's room changes both stacks, and the \<^verbatim>\<open>redo_update\<close> that
  follows changes both again.
\<close>

theorem C2_counterexample:
  "history (receive (undo_update ''r1'') board1) \<noteq> history board1
   \<and> redoStack (receive (undo_update ''r1'') board1) \<noteq> redoStack board1
   \<and> history (receive (redo_update ''r1'') (receive (undo_update ''r1'') board1))
       \<noteq> history (receive (undo_update ''r1'') board1)
   \<and> redoStack (receive (redo_update ''r1'') (receive (undo_update ''r1'') board1))
       \<noteq> redoStack (receive (undo_update ''r1'') board1)"
  by (simp add: board1_def board0_def handler_defs)

text \<open>
  C2, amended. \<^verbatim>\<open>clear_board\<close> empties the canvas and leaves both stacks as they were.
  A \<^verbatim>\<open>draw_update\<close> of the client's room adds every object that fabric revives from
  the path to the canvas and pushes it on \<^verbatim>\<open>history\<close>, in order, leaving \<^verbatim>\<open>redoStack\<close>
  as it was; when fabric revives nothing or throws, the whiteboard stays as it was. An
  \<^verbatim>\<open>undo_update\<close> of the client's room, when \<^verbatim>\<open>history\<close> is non-empty, pops its top onto
  \<^verbatim>\<open>redoStack\<close> and removes that object from the canvas; a \<^verbatim>\<open>redo_update\<close>, when
  \<^verbatim>\<open>redoStack\<close> is non-empty, pops its top back onto \<^verbatim>\<open>history\<close> and adds it to the
  canvas. In every other case (another room, or nothing to pop) these three leave the
  whiteboard as it was.
\<close>

theorem C2_remote_events:
  "(history (receive (clear_board a) wb) = history wb
      \<and> redoStack (receive (clear_board a) wb) = redoStack wb
      \<and> objects (canvas (receive (clear_board a) wb)) = [])
   \<and> (room = roomId wb \<longrightarrow>
        history (receive (draw_update room path (Some objs)) wb) =
          history wb @ [length (heap wb) ..< length (heap wb) + length objs]
      \<and> redoStack (receive (draw_update room path (Some objs)) wb) = redoStack wb
      \<and> objects (canvas (receive (draw_update room path (Some objs)) wb)) =
          objects (canvas wb) @ [length (heap wb) ..< length (heap wb) + length objs]
      \<and> heap (receive (draw_update room path (Some objs)) wb) = heap wb @ map Drawn objs
      \<and> receive (draw_update room path (Some [])) wb = wb
      \<and> receive (draw_update room path None) wb = wb)
   \<and> (room = roomId wb \<and> history wb \<noteq> [] \<longrightarrow>
        history (receive (undo_update room) wb) = butlast (history wb)
      \<and> redoStack (receive (undo_update room) wb) = redoStack wb @ [last (history wb)]
      \<and> objects (canvas (receive (undo_update room) wb)) = remove1 (last (history wb)) (objects (canvas wb)))
   \<and> (room = roomId wb \<and> redoStack wb \<noteq> [] \<longrightarrow>
        redoStack (receive (redo_update room) wb) = butlast (redoStack wb)
      \<and> history (receive (redo_update room) wb) = history wb @ [last (redoStack wb)]
      \<and> objects (canvas (receive (redo_update room) wb)) = objects (canvas wb) @ [last (redoStack wb)])
   \<and> (room \<noteq> roomId wb \<longrightarrow> receive (draw_update room path revived) wb = wb)
   \<and> (room \<noteq> roomId wb \<or> history wb = [] \<longrightarrow> receive (undo_update room) wb = wb)
   \<and> (room \<noteq> roomId wb \<or> redoStack wb = [] \<longrightarrow> receive (redo_update room) wb = wb)"
proof (intro conjI impI)
  show "room \<noteq> roomId wb \<or> history wb = [] \<Longrightarrow> receive (undo_update room) wb = wb"
    by (auto simp: undo_update_effect)
  show "room \<noteq> roomId wb \<or> redoStack wb = [] \<Longrightarrow> receive (redo_update room) wb = wb"
    by (auto simp: redo_update_effect)
  show "room = roomId wb \<Longrightarrow> receive (draw_update room path (Some [])) wb = wb"
    by (simp add: draw_update_effect enlivened_callback_def)
qed (simp_all add: clear_board_effect draw_update_effect enlivened_callback_effect
       undo_update_effect redo_update_effect)

text \<open>
  The board with one path, in room \<^verbatim>\<open>r1\<close>: each branch of the amended claim at a
  concrete event. The typed path revives one object; a string revives none.
\<close>

theorem C2_remote_events_witness:
  "history (receive (clear_board JUndefined) board1) = [0]
   \<and> history (receive (draw_update ''r1'' path2 (Some [path2])) board1) = [0, 1]
   \<and> redoStack (receive (draw_update ''r1'' path2 (Some [path2])) board1) = []
   \<and> objects (canvas (receive (draw_update ''r1'' path2 (Some [path2])) board1)) = [0, 1]
   \<and> receive (draw_update ''r1'' (JStr ''P2'') (Some [])) board1 = board1
   \<and> receive (draw_update ''r1'' path2 None) board1 = board1
   \<and> history (receive (undo_update ''r1'') board1) = []
   \<and> redoStack (receive (undo_update ''r1'') board1) = [0]
   \<and> history (receive (redo_update ''r1'') (receive (undo_update ''r1'') board1)) = [0]
   \<and> receive (draw_update ''r2'' path2 (Some [path2])) board1 = board1
   \<and> receive (undo_update ''r2'') board1 = board1
   \<and> receive (redo_update ''r1'') board1 = board1"
proof -
  let ?u = "receive (undo_update ''r1'') board1"
  note a = C2_remote_events [of JUndefined board1 "''r1''" path2 "[path2]" "Some [path2]"]
  note a' = C2_remote_events [of JUndefined board1 "''r1''" "JStr ''P2''" "[path2]" "Some [path2]"]
  note b = C2_remote_events [of JUndefined board1 "''r2''" path2 "[path2]" "Some [path2]"]
  note c = C2_remote_events [of JUndefined ?u "''r1''" path2 "[path2]" "Some [path2]"]
  have 1: "history (receive (clear_board JUndefined) board1) = [0]"
    using a by (simp add: board1_fields)
  have 2: "history (receive (draw_update ''r1'' path2 (Some [path2])) board1) = [0, 1]"
      "redoStack (receive (draw_update ''r1'' path2 (Some [path2])) board1) = []"
      "objects (canvas (receive (draw_update ''r1'' path2 (Some [path2])) board1)) = [0, 1]"
    using a by (simp_all add: board1_fields)
  have d1: "receive (draw_update ''r1'' (JStr ''P2'') (Some [])) board1 = board1"
    using a' by (simp add: board1_fields)
  have d2: "receive (draw_update ''r1'' path2 None) board1 = board1"
    using a by (simp add: board1_fields)
  have 3: "history ?u = []" "redoStack ?u = [0]"
    using a by (simp_all add: board1_fields)
  have u: "roomId ?u = ''r1''"
    by (simp add: board1_fields on_undo_update_def Let_def)
  have 4: "history (receive (redo_update ''r1'') ?u) = [0]"
    using c u 3 by simp
  have 5: "receive (draw_update ''r2'' path2 (Some [path2])) board1 = board1"
      "receive (undo_update ''r2'') board1 = board1"
    using b by (simp_all add: board1_fields)
  have 6: "receive (redo_update ''r1'') board1 = board1"
    using a by (simp add: board1_fields)
  from 1 2 d1 d2 3 4 5 6 show ?thesis by blast
qed

text \<open>
  C4, as claimed: a received event that carries another room's id leaves the canvas as
  it was. The handler of \<^verbatim>\<open>clear_board\<close> takes no parameter, so a \<^verbatim>\<open>clear_board\<close> that
  arrives with the id of room \<^verbatim>\<open>r2\<close>, or with no payload at all, empties the canvas of a
  board in room \<^verbatim>\<open>r1\<close>.
\<close>

theorem C4_counterexample:
  "event_room (clear_board (JObject [(''room'', JStr ''r2'')])) \<noteq> JStr (roomId board1)
   \<and> objects (canvas (receive (clear_board (JObject [(''room'', JStr ''r2'')])) board1))
       \<noteq> objects (canvas board1)
   \<and> event_room (clear_board JUndefined) \<noteq> JStr (roomId board1)
   \<and> objects (canvas (receive (clear_board JUndefined) board1)) \<noteq> objects (canvas board1)"
  by (simp add: board1_fields clear_board_effect)

text \<open>
  C4, amended. Each of \<^verbatim>\<open>cursor_update\<close>, \<^verbatim>\<open>viewport_update\<close>, \<^verbatim>\<open>draw_update\<close>,
  \<^verbatim>\<open>undo_update\<close> and \<^verbatim>\<open>redo_update\<close> leaves the whole whiteboard as it was when the
  event's room id differs from the client's, and so changes it only when the two are
  equal. \<^verbatim>\<open>clear_board\<close> is not filtered by room: whatever arrives with it, the canvas
  is emptied, and \<^verbatim>\<open>history\<close> and \<^verbatim>\<open>redoStack\<close> stay as they were.
\<close>

theorem C4_room_filter:
  "((\<forall>a. ev \<noteq> clear_board a) \<and> event_room ev \<noteq> JStr (roomId wb) \<longrightarrow> receive ev wb = wb)
   \<and> ((\<forall>a. ev \<noteq> clear_board a) \<and> receive ev wb \<noteq> wb \<longrightarrow> event_room ev = JStr (roomId wb))
   \<and> objects (canvas (receive (clear_board a) wb)) = []
   \<and> history (receive (clear_board a) wb) = history wb
   \<and> redoStack (receive (clear_board a) wb) = redoStack wb"
proof (intro conjI impI)
  assume "(\<forall>a. ev \<noteq> clear_board a) \<and> event_room ev \<noteq> JStr (roomId wb)"
  then show "receive ev wb = wb"
    using receive_other_room by blast
next
  assume "(\<forall>a. ev \<noteq> clear_board a) \<and> receive ev wb \<noteq> wb"
  then show "event_room ev = JStr (roomId wb)"
    using receive_other_room by blast
qed (simp_all add: clear_board_effect)

text \<open>
  Five events of room \<^verbatim>\<open>r2\<close> received by the board of room \<^verbatim>\<open>r1\<close>, and a
  \<^verbatim>\<open>clear_board\<close>.
\<close>

theorem C4_room_filter_witness:
  "receive (cursor_update ''r2'' ''bob'' 1 2) board1 = board1
   \<and> receive (viewport_update ''r2'' \<lparr>zoom = 2, pan = (5, 5)\<rparr>) board1 = board1
   \<and> receive (draw_update ''r2'' path2 (Some [path2])) board1 = board1
   \<and> receive (undo_update ''r2'') board1 = board1
   \<and> receive (redo_update ''r2'') board1 = board1
   \<and> objects (canvas (receive (clear_board (JObject [(''room'', JStr ''r2'')])) board1)) = []
   \<and> history (receive (clear_board (JObject [(''room'', JStr ''r2'')])) board1) = [0]
   \<and> receive (draw_update ''r1'' path2 (Some [path2])) board1 \<noteq> board1
   \<and> event_room (draw_update ''r1'' path2 (Some [path2])) = JStr (roomId board1)"
proof -
  let ?a = "JObject [(''room'', JStr ''r2'')]"
  have 1: "receive (cursor_update ''r2'' ''bob'' 1 2) board1 = board1"
    using C4_room_filter [of "cursor_update ''r2'' ''bob'' 1 2" board1 ?a]
    by (simp add: board1_fields)
  have 2: "receive (viewport_update ''r2'' \<lparr>zoom = 2, pan = (5, 5)\<rparr>) board1 = board1"
    using C4_room_filter [of "viewport_update ''r2'' \<lparr>zoom = 2, pan = (5, 5)\<rparr>" board1 ?a]
    by (simp add: board1_fields)
  have 3: "receive (draw_update ''r2'' path2 (Some [path2])) board1 = board1"
    using C4_room_filter [of "draw_update ''r2'' path2 (Some [path2])" board1 ?a]
    by (simp add: board1_fields)
  have 4: "receive (undo_update ''r2'') board1 = board1"
    using C4_room_filter [of "undo_update ''r2''" board1 ?a]
    by (simp add: board1_fields)
  have 5: "receive (redo_update ''r2'') board1 = board1"
    using C4_room_filter [of "redo_update ''r2''" board1 ?a]
    by (simp add: board1_fields)
  have 6: "objects (canvas (receive (clear_board ?a) board1)) = []"
      "history (receive (clear_board ?a) board1) = [0]"
    using C4_room_filter [of "undo_update ''r2''" board1 ?a]
    by (simp_all add: board1_fields)
  have "history (receive (draw_update ''r1'' path2 (Some [path2])) board1) \<noteq> history board1"
    by (simp add: board1_fields draw_update_effect enlivened_callback_effect)
  then have 7: "receive (draw_update ''r1'' path2 (Some [path2])) board1 \<noteq> board1"
    by auto
  have 8: "event_room (draw_update ''r1'' path2 (Some [path2])) = JStr (roomId board1)"
    using C4_room_filter [of "draw_update ''r1'' path2 (Some [path2])" board1 ?a] 7 by blast
  from 1 2 3 4 5 6 7 8 show ?thesis by blast
qed

section \<open>Cursor throttling\<close>

text \<open>
  C3. For every stream of pointer samples, each with the clock's reading, handled from
  any state: the events sent are exactly the \<^verbatim>\<open>cursor_move\<close> events of the samples at
  which the handler emitted, in order, each with the clamped position of its own sample
  (the most recent one when it is sent); those samples are a subsequence of the stream;
  any two of them are more than 50 ms apart; a sample that comes 50 ms or less after the
  last emission leaves the whole state as it was (it is dropped, nothing is queued); a
  sample that comes later is sent at once.
\<close>

theorem C3_throttle:
  "sent (socket (track ss wb)) = sent (socket wb) @ map (cursor_move_event wb) (emitted_at ss wb)
   \<and> subseq (emitted_at ss wb) ss
   \<and> (\<forall>i j. i < j \<and> j < length (emitted_at ss wb) \<longrightarrow>
         fst (emitted_at ss wb ! j) - fst (emitted_at ss wb ! i) > 50)
   \<and> (\<forall>now p. \<not> now - lastEmit wb > 50 \<longrightarrow> on_mouse_move now p wb = wb)
   \<and> (\<forall>now p. now - lastEmit wb > 50 \<longrightarrow>
         sent (socket (on_mouse_move now p wb)) = sent (socket wb) @ [cursor_move_event wb (now, p)])"
proof (intro conjI allI impI)
  show "sent (socket (track ss wb)) = sent (socket wb) @ map (cursor_move_event wb) (emitted_at ss wb)"
    by (rule sent_track)
  show "subseq (emitted_at ss wb) ss"
    by (rule subseq_emitted_at)
next
  fix i j
  assume "i < j \<and> j < length (emitted_at ss wb)"
  moreover have "sorted_wrt (\<lambda>a b. fst b - fst a > EMIT_INTERVAL) (emitted_at ss wb)"
    using emitted_at_spaced by blast
  ultimately have "fst (emitted_at ss wb ! j) - fst (emitted_at ss wb ! i) > EMIT_INTERVAL"
    by (simp add: sorted_wrt_iff_nth_less)
  then show "fst (emitted_at ss wb ! j) - fst (emitted_at ss wb ! i) > 50"
    by (simp add: EMIT_INTERVAL_def)
next
  fix now p
  assume "\<not> now - lastEmit wb > 50"
  then show "on_mouse_move now p wb = wb"
    using on_mouse_move_drops by (simp add: EMIT_INTERVAL_def)
next
  fix now p
  assume "now - lastEmit wb > 50"
  then show "sent (socket (on_mouse_move now p wb)) = sent (socket wb) @ [cursor_move_event wb (now, p)]"
    using on_mouse_move_emits(1) by (simp add: EMIT_INTERVAL_def)
qed

text \<open>
  Six samples at 1000, 1020, 1050, 1051, 1060 and 1102 ms on the fresh board: those at
  1000, 1051 and 1102 are sent, the second clamped from (-7, 900) to (0, 600).
\<close>

theorem C3_throttle_witness:
  "emitted_at samples0 board0 = [(1000, (1, 1)), (1051, (- 7, 900)), (1102, (1, 1))]
   \<and> map (\<lambda>e. (field (snd e) ''x'', field (snd e) ''y'')) (drop 1 (sent (socket (track samples0 board0))))
       = [(JNum 1, JNum 1), (JNum 0, JNum 600), (JNum 1, JNum 1)]
   \<and> fst (emitted_at samples0 board0 ! 1) - fst (emitted_at samples0 board0 ! 0) > 50
   \<and> fst (emitted_at samples0 board0 ! 2) - fst (emitted_at samples0 board0 ! 1) > 50
   \<and> on_mouse_move 50 (5, 5) board0 = board0
   \<and> length (sent (socket (on_mouse_move 51 (5, 5) board0))) = 2"
proof -
  note t = C3_throttle [of samples0 board0]
  have 1: "sent (socket (track samples0 board0)) =
      sent (socket board0) @ map (cursor_move_event board0) (emitted_at samples0 board0)"
    using t by blast
  have 2: "map (\<lambda>e. (field (snd e) ''x'', field (snd e) ''y'')) (drop 1 (sent (socket (track samples0 board0))))
       = [(JNum 1, JNum 1), (JNum 0, JNum 600), (JNum 1, JNum 1)]"
    unfolding 1 by (simp add: emitted_at_samples0 board0_fields cursor_move_event_def)
  have 3: "fst (emitted_at samples0 board0 ! 1) - fst (emitted_at samples0 board0 ! 0) > 50"
    using t by (simp add: emitted_at_samples0)
  have 4: "fst (emitted_at samples0 board0 ! 2) - fst (emitted_at samples0 board0 ! 1) > 50"
    using t by (simp add: emitted_at_samples0)
  have 5: "on_mouse_move 50 (5, 5) board0 = board0"
    using t by (simp add: board0_fields)
  have 6: "length (sent (socket (on_mouse_move 51 (5, 5) board0))) = 2"
    using t by (simp add: board0_fields)
  from emitted_at_samples0 2 3 4 5 6 show ?thesis by blast
qed




section \<open>Draws, undos and the two stacks\<close>

text \<open>
  C6. After any sequence of completed local draw actions (free-drawn paths, rectangles,
  circles) followed by as many \<^verbatim>\<open>undo\<close>s, \<^verbatim>\<open>history\<close> is what it was before the
  sequence.
\<close>

theorem C6_draws_then_undos:
  "history ((undo ^^ length ds) (fold draw ds wb)) = history wb"
proof -
  obtain new where n: "history (fold draw ds wb) = history wb @ new" "length new = length ds"
    using history_fold_draw by blast
  have "history ((undo ^^ length ds) (fold draw ds wb)) = (butlast ^^ length new) (history wb @ new)"
    by (simp add: history_funpow_undo n)
  then show ?thesis by (simp add: funpow_butlast_append)
qed

text \<open>
  A path, a rectangle and a circle drawn on the board with one path, then three undos.
\<close>

theorem C6_draws_then_undos_witness:
  "history (fold draw [FreeDraw (JStr ''P2''), RectDraw (1, 1) [(3, 4)], CircleDraw (0, 0) []] board1)
     = [0, 1, 2, 3]
   \<and> history ((undo ^^ 3)
        (fold draw [FreeDraw (JStr ''P2''), RectDraw (1, 1) [(3, 4)], CircleDraw (0, 0) []] board1))
     = [0]"
proof -
  let ?ds = "[FreeDraw (JStr ''P2''), RectDraw (1, 1) [(3, 4)], CircleDraw (0, 0) []]"
  have 1: "history (fold draw ?ds board1) = [0, 1, 2, 3]"
    by (simp add: board1_def board0_def handler_defs)
  have "history ((undo ^^ length ?ds) (fold draw ?ds board1)) = history board1"
    by (rule C6_draws_then_undos)
  then have 2: "history ((undo ^^ 3) (fold draw ?ds board1)) = [0]"
    by (simp add: board1_fields numeral_3_eq_3)
  from 1 2 show ?thesis by blast
qed

text \<open>
  C7. In every state a new whiteboard reaches by completed local draws, \<^verbatim>\<open>undo\<close>,
  \<^verbatim>\<open>redo\<close>, \<^verbatim>\<open>clear\<close>, pointer samples, loaded drawings and received remote events, no
  object is in both \<^verbatim>\<open>history\<close> and \<^verbatim>\<open>redoStack\<close>, and none is twice in either.
\<close>

theorem C7_stacks_disjoint:
  "set (history (run acts (Whiteboard_new sock room w h)))
     \<inter> set (redoStack (run acts (Whiteboard_new sock room w h))) = {}
   \<and> distinct (history (run acts (Whiteboard_new sock room w h)))
   \<and> distinct (redoStack (run acts (Whiteboard_new sock room w h)))"
proof -
  have "stacks_ok (run acts (Whiteboard_new sock room w h))"
    using stacks_ok_new by (rule stacks_ok_run)
  then show ?thesis
    by (simp add: stacks_ok_iff)
qed

text \<open>
  Draw, undo, draw, redo, then a remote \<^verbatim>\<open>undo_update\<close>: the second path is on
  \<^verbatim>\<open>history\<close> and the first on \<^verbatim>\<open>redoStack\<close>.
\<close>

theorem C7_stacks_disjoint_witness:
  "history (run [Draw (FreeDraw (JStr ''P1'')), Undo, Draw (FreeDraw (JStr ''P2'')), Redo,
                 Receive (undo_update ''r1'')] (Whiteboard_new SocketManager_new ''r1'' 800 600)) = [1]
   \<and> redoStack (run [Draw (FreeDraw (JStr ''P1'')), Undo, Draw (FreeDraw (JStr ''P2'')), Redo,
                 Receive (undo_update ''r1'')] (Whiteboard_new SocketManager_new ''r1'' 800 600)) = [0]
   \<and> set (history (run [Draw (FreeDraw (JStr ''P1'')), Undo, Draw (FreeDraw (JStr ''P2'')), Redo,
                 Receive (undo_update ''r1'')] (Whiteboard_new SocketManager_new ''r1'' 800 600)))
      \<inter> set (redoStack (run [Draw (FreeDraw (JStr ''P1'')), Undo, Draw (FreeDraw (JStr ''P2'')), Redo,
                 Receive (undo_update ''r1'')] (Whiteboard_new SocketManager_new ''r1'' 800 600))) = {}"
proof -
  let ?acts = "[Draw (FreeDraw (JStr ''P1'')), Undo, Draw (FreeDraw (JStr ''P2'')), Redo,
                 Receive (undo_update ''r1'')]"
  let ?wb = "run ?acts (Whiteboard_new SocketManager_new ''r1'' 800 600)"
  have 1: "history ?wb = [1]"
    by (simp add: run_def handler_defs)
  have 2: "redoStack ?wb = [0]"
    by (simp add: run_def handler_defs)
  have 3: "set (history ?wb) \<inter> set (redoStack ?wb) = {}"
    using C7_stacks_disjoint [of ?acts SocketManager_new "''r1''" 800 600] by blast
  from 1 2 3 show ?thesis by blast
qed

end
